theory Spec2Isabelle
  imports Main "HOL-Library.Sublist"
begin

section \<open>JSON documents and the Python operations applied to them\<close>

text \<open>
  \<^verbatim>\<open>query_graphrag.py\<close> works on whatever \<^verbatim>\<open>json.load\<close> returns: dicts, lists, strings,
  integers, booleans and \<^verbatim>\<open>None\<close>. A dict is the list of its items in insertion order
  (its keys are distinct after parsing; lookup takes the first item of a key). Numbers
  with a fractional part are not part of the model. A character is a code point below 256.
\<close>

datatype json =
    JNull
  | JBool bool
  | JInt int
  | JStr string
  | JArr "json list"
  | JObj "(string \<times> json) list"

datatype error =
    FileNotFoundError
  | OSError
  | JSONDecodeError
  | KeyError
  | TypeError
  | AttributeError

text \<open>\<^verbatim>\<open>x[k]\<close> with a string key \<^verbatim>\<open>k\<close>: only a dict can be subscripted by a string.\<close>

fun subscript :: "json \<Rightarrow> string \<Rightarrow> error + json" where
  "subscript (JObj kvs) k = (case map_of kvs k of None \<Rightarrow> Inl KeyError | Some v \<Rightarrow> Inr v)"
| "subscript _ k = Inl TypeError"

text \<open>\<^verbatim>\<open>x.get(k, d)\<close>: only a dict has the method.\<close>

fun get_default :: "json \<Rightarrow> string \<Rightarrow> json \<Rightarrow> error + json" where
  "get_default (JObj kvs) k d = (case map_of kvs k of None \<Rightarrow> Inr d | Some v \<Rightarrow> Inr v)"
| "get_default _ k d = Inl AttributeError"

text \<open>\<^verbatim>\<open>for v in x\<close>: a list gives its elements, a dict its keys, a string its characters.\<close>

fun iterate :: "json \<Rightarrow> error + json list" where
  "iterate (JArr vs) = Inr vs"
| "iterate (JObj kvs) = Inr (map (\<lambda>kv. JStr (fst kv)) kvs)"
| "iterate (JStr s) = Inr (map (\<lambda>c. JStr [c]) s)"
| "iterate _ = Inl TypeError"

text \<open>\<^verbatim>\<open>a + b\<close> where the code adds strings: anything else on either side is a TypeError.\<close>

fun str_add :: "json \<Rightarrow> json \<Rightarrow> error + json" where
  "str_add (JStr a) (JStr b) = Inr (JStr (a @ b))"
| "str_add _ _ = Inl TypeError"

text \<open>
  Members of a Python set are compared by \<^verbatim>\<open>==\<close> and must be hashable: \<^verbatim>\<open>True == 1\<close> and
  \<^verbatim>\<open>False == 0\<close>, lists and dicts are unhashable. A \<open>key\<close> is a hashable value up to \<^verbatim>\<open>==\<close>.
\<close>

datatype key = KNone | KNum int | KStr string

fun hash_key :: "json \<Rightarrow> key option" where
  "hash_key JNull = Some KNone"
| "hash_key (JBool b) = Some (KNum (if b then 1 else 0))"
| "hash_key (JInt i) = Some (KNum i)"
| "hash_key (JStr s) = Some (KStr s)"
| "hash_key (JArr vs) = None"
| "hash_key (JObj kvs) = None"

text \<open>\<^verbatim>\<open>set(xs)\<close>\<close>

fun py_set :: "json list \<Rightarrow> error + key set" where
  "py_set [] = Inr {}"
| "py_set (v # vs) =
     (case hash_key v of
        None \<Rightarrow> Inl TypeError
      | Some k \<Rightarrow> (case py_set vs of Inl e \<Rightarrow> Inl e | Inr s \<Rightarrow> Inr (insert k s)))"

text \<open>\<^verbatim>\<open>v in s\<close> and \<^verbatim>\<open>s.add(v)\<close> for a set \<^verbatim>\<open>s\<close>: both hash \<^verbatim>\<open>v\<close>.\<close>

definition in_set :: "json \<Rightarrow> key set \<Rightarrow> error + bool" where
  "in_set v s = (case hash_key v of None \<Rightarrow> Inl TypeError | Some k \<Rightarrow> Inr (k \<in> s))"

definition set_add :: "json \<Rightarrow> key set \<Rightarrow> error + key set" where
  "set_add v s = (case hash_key v of None \<Rightarrow> Inl TypeError | Some k \<Rightarrow> Inr (insert k s))"

text \<open>
  \<^verbatim>\<open>v in xs\<close> for a list \<^verbatim>\<open>xs\<close> of hashable values, given by the set of its elements:
  membership in a list compares by \<^verbatim>\<open>==\<close> and never raises; an unhashable \<^verbatim>\<open>v\<close> equals none.
\<close>

definition in_list :: "json \<Rightarrow> key set \<Rightarrow> bool" where
  "in_list v s = (case hash_key v of None \<Rightarrow> False | Some k \<Rightarrow> k \<in> s)"

text \<open>Sequencing of a step that may raise.\<close>

definition and_then :: "error + 'a \<Rightarrow> ('a \<Rightarrow> error + 'b) \<Rightarrow> error + 'b" where
  "and_then m f = (case m of Inl e \<Rightarrow> Inl e | Inr x \<Rightarrow> f x)"

text \<open>\<^verbatim>\<open>[f(x) for x in xs]\<close> and \<^verbatim>\<open>[x for x in xs if p(x)]\<close>, stopping at the first raise.\<close>

fun collect :: "('a \<Rightarrow> error + 'b) \<Rightarrow> 'a list \<Rightarrow> error + 'b list" where
  "collect f [] = Inr []"
| "collect f (x # xs) =
     (case f x of
        Inl e \<Rightarrow> Inl e
      | Inr y \<Rightarrow> (case collect f xs of Inl e \<Rightarrow> Inl e | Inr ys \<Rightarrow> Inr (y # ys)))"

fun keep :: "('a \<Rightarrow> error + bool) \<Rightarrow> 'a list \<Rightarrow> error + 'a list" where
  "keep p [] = Inr []"
| "keep p (x # xs) =
     (case p x of
        Inl e \<Rightarrow> Inl e
      | Inr b \<Rightarrow> (case keep p xs of Inl e \<Rightarrow> Inl e | Inr ys \<Rightarrow> Inr (if b then x # ys else ys)))"

subsection \<open>Strings\<close>

text \<open>\<^verbatim>\<open>s.lower()\<close> on code points below 256: A-Z and the Latin-1 capitals move up by 32.\<close>

definition lower_char :: "char \<Rightarrow> char" where
  "lower_char c =
     (let n = (of_char c :: nat)
      in if (65 \<le> n \<and> n \<le> 90) \<or> (192 \<le> n \<and> n \<le> 222 \<and> n \<noteq> 215)
         then char_of (n + 32) else c)"

definition str_lower :: "string \<Rightarrow> string" where
  "str_lower s = map lower_char s"

text \<open>\<^verbatim>\<open>s.split()\<close>: the maximal runs of non-whitespace characters.\<close>

definition is_space :: "char \<Rightarrow> bool" where
  "is_space c = ((of_char c :: nat) \<in> {9, 10, 11, 12, 13, 28, 29, 30, 31, 32, 133, 160})"

fun split_from :: "string \<Rightarrow> string \<Rightarrow> string list" where
  "split_from w [] = (if w = [] then [] else [w])"
| "split_from w (c # cs) =
     (if is_space c then (if w = [] then split_from [] cs else w # split_from [] cs)
      else split_from (w @ [c]) cs)"

definition str_split :: "string \<Rightarrow> string list" where
  "str_split s = split_from [] s"

text \<open>\<^verbatim>\<open>sub in s\<close> for strings: \<^verbatim>\<open>sub\<close> occurs in \<^verbatim>\<open>s\<close> as a contiguous run.\<close>

fun str_in :: "string \<Rightarrow> string \<Rightarrow> bool" where
  "str_in sub [] = (sub = [])"
| "str_in sub (c # cs) = (if prefix sub (c # cs) then True else str_in sub cs)"

section \<open>The graph store accessor\<close>

text \<open>
  The file system as the query sees it: what opening and parsing a path gives, which paths
  a directory enumerates (in enumeration order; none for a directory that does not exist),
  and whether writing the output at a path fails.
\<close>

datatype file_state = Unreadable | Malformed | Document json

record world =
  files :: "string \<Rightarrow> file_state option"
  listing :: "string \<Rightarrow> string list"
  save_error :: "string \<Rightarrow> error option"

datatype event = OpenFile string | ScanDir string | SaveFile string

text \<open>
  \<^verbatim>\<open>with open(p, 'r') as f: json.load(f)\<close>: the file accesses made, and the value.
  \<open>OSError\<close> stands for the errors of opening other than \<open>FileNotFoundError\<close>.
\<close>

definition read_json :: "world \<Rightarrow> string \<Rightarrow> event list \<times> (error + json)" where
  "read_json w p =
     ([OpenFile p],
      case files w p of
        None \<Rightarrow> Inl FileNotFoundError
      | Some Unreadable \<Rightarrow> Inl OSError
      | Some Malformed \<Rightarrow> Inl JSONDecodeError
      | Some (Document j) \<Rightarrow> Inr j)"

definition load_graph :: "world \<Rightarrow> string \<Rightarrow> event list \<times> (error + json)" where
  "load_graph w graph_file = read_json w graph_file"

section \<open>The entity matcher\<close>

text \<open>\<^verbatim>\<open>(node.get('id', '') + ' ' + node.get('text', '')).lower()\<close>\<close>

definition node_text :: "json \<Rightarrow> error + string" where
  "node_text node =
     and_then (get_default node ''id'' (JStr '''')) (\<lambda>i.
     and_then (str_add i (JStr '' '')) (\<lambda>a.
     and_then (get_default node ''text'' (JStr '''')) (\<lambda>t.
     and_then (str_add a t) (\<lambda>r.
       case r of JStr s \<Rightarrow> Inr (str_lower s) | _ \<Rightarrow> Inl AttributeError))))"

text \<open>The inner loop over the terms, left at the first term that occurs.\<close>

fun term_matches :: "string list \<Rightarrow> string \<Rightarrow> bool" where
  "term_matches [] txt = False"
| "term_matches (t # ts) txt = (if str_in t txt then True else term_matches ts txt)"

fun search_nodes :: "string list \<Rightarrow> json list \<Rightarrow> json list \<Rightarrow> error + json list" where
  "search_nodes query_lower [] matches = Inr matches"
| "search_nodes query_lower (node # rest) matches =
     (case node_text node of
        Inl e \<Rightarrow> Inl e
      | Inr txt \<Rightarrow>
          search_nodes query_lower rest
            (if term_matches query_lower txt then matches @ [node] else matches))"

definition search_entities :: "json \<Rightarrow> string list \<Rightarrow> error + json list" where
  "search_entities graph query_terms =
     (let query_lower = map str_lower query_terms
      in and_then (subscript graph ''nodes'') (\<lambda>ns.
         and_then (iterate ns) (\<lambda>nodes.
           search_nodes query_lower nodes [])))"

section \<open>The multi-hop expander\<close>

text \<open>One edge of the scan: the two \<^verbatim>\<open>if\<close> statements, in order.\<close>

definition scan_edge :: "key set \<Rightarrow> json \<Rightarrow> key set \<Rightarrow> error + key set" where
  "scan_edge related edge new_entities =
     and_then (subscript edge ''from'') (\<lambda>f.
     and_then (in_set f related) (\<lambda>b.
     and_then (if b then and_then (subscript edge ''to'') (\<lambda>t. set_add t new_entities)
               else Inr new_entities) (\<lambda>new1.
     and_then (subscript edge ''to'') (\<lambda>t.
     and_then (in_set t related) (\<lambda>b'.
       if b' then and_then (subscript edge ''from'') (\<lambda>f'. set_add f' new1)
       else Inr new1)))))"

fun scan_edges :: "key set \<Rightarrow> json list \<Rightarrow> key set \<Rightarrow> error + key set" where
  "scan_edges related [] new_entities = Inr new_entities"
| "scan_edges related (edge # rest) new_entities =
     (case scan_edge related edge new_entities of
        Inl e \<Rightarrow> Inl e
      | Inr new1 \<Rightarrow> scan_edges related rest new1)"

text \<open>The \<^verbatim>\<open>for _ in range(depth)\<close> loop; \<^verbatim>\<open>graph['edges']\<close> is read in every round.\<close>

fun expand_rounds :: "json \<Rightarrow> nat \<Rightarrow> key set \<Rightarrow> error + key set" where
  "expand_rounds graph 0 related = Inr related"
| "expand_rounds graph (Suc n) related =
     (case and_then (subscript graph ''edges'') (\<lambda>es.
           and_then (iterate es) (\<lambda>edges. scan_edges related edges {})) of
        Inl e \<Rightarrow> Inl e
      | Inr new_entities \<Rightarrow> expand_rounds graph n (related \<union> new_entities))"

text \<open>
  The result is \<^verbatim>\<open>list(related)\<close>: a list without repetition in the iteration order of the
  set, which is not modelled; the callers test membership and take its length only, so
  the list is given by the set of its elements. \<^verbatim>\<open>range(depth)\<close> is empty for a negative
  \<^verbatim>\<open>depth\<close>.
\<close>

definition get_related_entities :: "json \<Rightarrow> json list \<Rightarrow> int \<Rightarrow> error + key set" where
  "get_related_entities graph entity_ids depth =
     and_then (py_set entity_ids) (\<lambda>related. expand_rounds graph (nat depth) related)"

section \<open>The subgraph builder\<close>

definition get_subgraph :: "json \<Rightarrow> key set \<Rightarrow> error + json" where
  "get_subgraph graph entity_ids =
     and_then (subscript graph ''nodes'') (\<lambda>ns.
     and_then (iterate ns) (\<lambda>node_list.
     and_then (keep (\<lambda>n. and_then (subscript n ''id'') (\<lambda>i. Inr (in_list i entity_ids)))
                 node_list) (\<lambda>nodes.
     and_then (subscript graph ''edges'') (\<lambda>es.
     and_then (iterate es) (\<lambda>edge_list.
     and_then (keep (\<lambda>e. and_then (subscript e ''from'') (\<lambda>f.
                           if in_list f entity_ids
                           then and_then (subscript e ''to'') (\<lambda>t. Inr (in_list t entity_ids))
                           else Inr False))
                 edge_list) (\<lambda>edges.
       Inr (JObj [(''nodes'', JArr nodes), (''edges'', JArr edges)])))))))"

section \<open>The chunk locator\<close>

text \<open>
  \<^verbatim>\<open>Path(graph_chunks_dir).glob('entities_CHUNK-*.json')\<close> yields the entries of the
  directory whose last path component matches the pattern, in enumeration order.
\<close>

definition basename :: "string \<Rightarrow> string" where
  "basename p = rev (takeWhile (\<lambda>c. c \<noteq> CHR ''/'') (rev p))"

definition glob_match :: "string \<Rightarrow> bool" where
  "glob_match name =
     (prefix ''entities_CHUNK-'' name \<and> prefix (rev ''.json'') (rev (drop 15 name)))"

definition chunk_files :: "world \<Rightarrow> string \<Rightarrow> string list" where
  "chunk_files w graph_chunks_dir =
     filter (\<lambda>p. glob_match (basename p)) (listing w graph_chunks_dir)"

text \<open>The body of the loop after the file is parsed; \<^verbatim>\<open>entity_ids\<close> is the list of related ids.\<close>

definition chunk_step :: "key set \<Rightarrow> string \<Rightarrow> json \<Rightarrow> json list \<Rightarrow> error + json list" where
  "chunk_step entity_ids entity_file data chunks =
     and_then (get_default data ''entities'' (JArr [])) (\<lambda>ents.
     and_then (iterate ents) (\<lambda>es.
     and_then (collect (\<lambda>e. subscript e ''id'') es) (\<lambda>chunk_entity_ids.
       if \<exists>eid\<in>entity_ids. Some eid \<in> set (map hash_key chunk_entity_ids)
       then and_then (subscript data ''chunk_id'') (\<lambda>cid.
            and_then (subscript data ''entities'') (\<lambda>ents'.
            and_then (get_default data ''relationships'' (JArr [])) (\<lambda>rels.
              Inr (chunks @ [JObj [(''chunk_id'', cid), (''entities'', ents'),
                                   (''relationships'', rels), (''file'', JStr entity_file)]]))))
       else Inr chunks)))"

fun scan_files ::
  "world \<Rightarrow> key set \<Rightarrow> string list \<Rightarrow> json list \<Rightarrow> event list \<times> (error + json list)" where
  "scan_files w entity_ids [] chunks = ([], Inr chunks)"
| "scan_files w entity_ids (entity_file # rest) chunks =
     (case read_json w entity_file of
        (ev, Inl e) \<Rightarrow> (ev, Inl e)
      | (ev, Inr data) \<Rightarrow>
          (case chunk_step entity_ids entity_file data chunks of
             Inl e \<Rightarrow> (ev, Inl e)
           | Inr chunks1 \<Rightarrow>
               (case scan_files w entity_ids rest chunks1 of (ev1, r) \<Rightarrow> (ev @ ev1, r))))"

definition find_chunks_with_entities ::
  "world \<Rightarrow> key set \<Rightarrow> string \<Rightarrow> event list \<times> (error + json list)" where
  "find_chunks_with_entities w entity_ids graph_chunks_dir =
     (case scan_files w entity_ids (chunk_files w graph_chunks_dir) [] of
        (ev, r) \<Rightarrow> (ScanDir graph_chunks_dir # ev, r))"

section \<open>The result assembler\<close>

text \<open>\<^verbatim>\<open>len(x)\<close>\<close>

fun py_len :: "json \<Rightarrow> error + json" where
  "py_len (JArr vs) = Inr (JInt (int (length vs)))"
| "py_len (JObj kvs) = Inr (JInt (int (length kvs)))"
| "py_len (JStr s) = Inr (JInt (int (length s)))"
| "py_len _ = Inl TypeError"

text \<open>
  \<^verbatim>\<open>main\<close> from the loading of the graph to the saving of the result. The command-line
  arguments are its parameters; \<^verbatim>\<open>os.makedirs\<close>, \<^verbatim>\<open>open(output_file, 'w')\<close> and \<^verbatim>\<open>json.dump\<close>
  are one step that the file system lets succeed or fail. The value is the \<^verbatim>\<open>result\<close>
  that was saved.
\<close>

definition main ::
  "world \<Rightarrow> string \<Rightarrow> string \<Rightarrow> string \<Rightarrow> string \<Rightarrow> int \<Rightarrow> event list \<times> (error + json)" where
  "main w query graph_file graph_chunks_dir output_file max_depth =
     (case load_graph w graph_file of
        (ev1, Inl e) \<Rightarrow> (ev1, Inl e)
      | (ev1, Inr graph) \<Rightarrow>
          (case search_entities graph (str_split (str_lower query)) of
             Inl e \<Rightarrow> (ev1, Inl e)
           | Inr matching_entities \<Rightarrow>
               (case
                  (if matching_entities = []
                   then ([], Inr (JObj
                     [(''query'', JStr query),
                      (''status'', JStr ''no_matches''),
                      (''message'', JStr ''No entities found matching the query''),
                      (''suggestions'', JArr [JStr ''Try broader terms'', JStr ''Check spelling'',
                                             JStr ''Use key concepts''])]))
                   else
                     (case and_then (collect (\<lambda>e. subscript e ''id'') matching_entities)
                             (\<lambda>entity_ids. get_related_entities graph entity_ids max_depth) of
                        Inl e \<Rightarrow> ([], Inl e)
                      | Inr related_ids \<Rightarrow>
                          (case find_chunks_with_entities w related_ids graph_chunks_dir of
                             (ev2, Inl e) \<Rightarrow> (ev2, Inl e)
                           | (ev2, Inr relevant_chunks) \<Rightarrow>
                               (ev2,
                                and_then (get_subgraph graph related_ids) (\<lambda>subgraph.
                                and_then (and_then (subscript subgraph ''nodes'') py_len) (\<lambda>n_nodes.
                                and_then (and_then (subscript subgraph ''edges'') py_len) (\<lambda>n_edges.
                                  Inr (JObj
                                    [(''query'', JStr query),
                                     (''status'', JStr ''success''),
                                     (''matching_entities'', JArr matching_entities),
                                     (''total_related_entities'', JInt (int (card related_ids))),
                                     (''relevant_chunks'', JInt (int (length relevant_chunks))),
                                     (''chunks'', JArr (take 20 relevant_chunks)),
                                     (''subgraph'', JObj [(''nodes'', n_nodes), (''edges'', n_edges),
                                                         (''data'', subgraph)]),
                                     (''statistics'', JObj
                                        [(''direct_matches'', JInt (int (length matching_entities))),
                                         (''total_related'', JInt (int (card related_ids))),
                                         (''chunks_found'', JInt (int (length relevant_chunks))),
                                         (''search_depth'', JInt max_depth)])]))))))))
                of
                  (ev2, Inl e) \<Rightarrow> (ev1 @ ev2, Inl e)
                | (ev2, Inr result) \<Rightarrow>
                    (ev1 @ ev2 @ [SaveFile output_file],
                     case save_error w output_file of Some e \<Rightarrow> Inl e | None \<Rightarrow> Inr result))))"

section \<open>The data model of the specification\<close>

text \<open>
  The shapes of section 3 of the specification, as predicates on documents: a Node is
  \<open>{id, text, type}\<close>, an Edge \<open>{from, to, type}\<close>, a Graph \<open>{nodes, edges}\<close>, a
  ChunkEntityRecord \<open>{chunk_id, entities, relationships}\<close>, the fields being strings and
  sequences.
\<close>

definition has_str :: "json \<Rightarrow> string \<Rightarrow> bool" where
  "has_str j k = (case subscript j k of Inr (JStr s) \<Rightarrow> True | _ \<Rightarrow> False)"

definition str_field :: "json \<Rightarrow> string \<Rightarrow> string" where
  "str_field j k = (case subscript j k of Inr (JStr s) \<Rightarrow> s | _ \<Rightarrow> [])"

definition list_field :: "json \<Rightarrow> string \<Rightarrow> json list" where
  "list_field j k = (case subscript j k of Inr (JArr vs) \<Rightarrow> vs | _ \<Rightarrow> [])"

definition has_list :: "json \<Rightarrow> string \<Rightarrow> bool" where
  "has_list j k = (case subscript j k of Inr (JArr vs) \<Rightarrow> True | _ \<Rightarrow> False)"

definition is_node :: "json \<Rightarrow> bool" where
  "is_node n = (has_str n ''id'' \<and> has_str n ''text'' \<and> has_str n ''type'')"

definition is_edge :: "json \<Rightarrow> bool" where
  "is_edge e = (has_str e ''from'' \<and> has_str e ''to'' \<and> has_str e ''type'')"

definition graph_shape :: "json \<Rightarrow> bool" where
  "graph_shape g =
     (has_list g ''nodes'' \<and> has_list g ''edges'' \<and>
      list_all is_node (list_field g ''nodes'') \<and> list_all is_edge (list_field g ''edges''))"




definition node_id :: "json \<Rightarrow> key" where
  "node_id n = KStr (str_field n ''id'')"

definition edge_from :: "json \<Rightarrow> key" where
  "edge_from e = KStr (str_field e ''from'')"

definition edge_to :: "json \<Rightarrow> key" where
  "edge_to e = KStr (str_field e ''to'')"

definition node_ids :: "json \<Rightarrow> key set" where
  "node_ids g = node_id ` set (list_field g ''nodes'')"

section \<open>The properties of the specification, in its words\<close>

text \<open>
  Undirected edge distance: \<open>b\<close> is adjacent to \<open>a\<close> when an edge joins them in either
  direction, a walk is a sequence of identifiers each adjacent to the next, and an
  identifier is within \<open>h\<close> hops of \<open>S\<close> when a walk of at most \<open>h\<close> edges leads to it from
  a member of \<open>S\<close>.
\<close>

definition adjacent :: "json list \<Rightarrow> key \<Rightarrow> key \<Rightarrow> bool" where
  "adjacent es a b =
     (\<exists>e\<in>set es. (edge_from e = a \<and> edge_to e = b) \<or> (edge_from e = b \<and> edge_to e = a))"

fun walk :: "json list \<Rightarrow> key list \<Rightarrow> bool" where
  "walk es [] = True"
| "walk es [a] = True"
| "walk es (a # b # p) = (adjacent es a b \<and> walk es (b # p))"

definition within_hops :: "json list \<Rightarrow> key set \<Rightarrow> nat \<Rightarrow> key set" where
  "within_hops es S h =
     {x. \<exists>p. p \<noteq> [] \<and> hd p \<in> S \<and> last p = x \<and> length p \<le> Suc h \<and> walk es p}"

text \<open>The identifiers that one full scan of the edges adds for the working set \<open>R\<close>.\<close>

definition neighbours :: "json list \<Rightarrow> key set \<Rightarrow> key set" where
  "neighbours es R = {edge_to e | e. e \<in> set es \<and> edge_from e \<in> R} \<union>
                     {edge_from e | e. e \<in> set es \<and> edge_to e \<in> R}"

text \<open>
  The text a node is searched in: as the code builds it, with a space between \<open>id\<close> and
  \<open>text\<close>, and as section 4.2 words it, the concatenation of \<open>id\<close> and \<open>text\<close>.
\<close>

definition spaced_text :: "json \<Rightarrow> string" where
  "spaced_text n = str_lower (str_field n ''id'' @ '' '' @ str_field n ''text'')"

definition claimed_text :: "json \<Rightarrow> string" where
  "claimed_text n = str_lower (str_field n ''id'' @ str_field n ''text'')"

definition claimed_matches :: "json \<Rightarrow> string list \<Rightarrow> json list" where
  "claimed_matches g terms =
     filter (\<lambda>n. \<exists>t\<in>set terms. sublist (str_lower t) (claimed_text n)) (list_field g ''nodes'')"

definition spaced_matches :: "json \<Rightarrow> string list \<Rightarrow> json list" where
  "spaced_matches g terms =
     filter (\<lambda>n. \<exists>t\<in>set terms. sublist (str_lower t) (spaced_text n)) (list_field g ''nodes'')"

text \<open>
  The subgraph of the edges with both endpoints in \<open>E\<close>, whether or not a node carries
  them.
\<close>

definition induced_subgraph :: "json \<Rightarrow> key set \<Rightarrow> json" where
  "induced_subgraph g E =
     JObj [(''nodes'', JArr (filter (\<lambda>n. node_id n \<in> E) (list_field g ''nodes''))),
           (''edges'', JArr (filter (\<lambda>e. edge_from e \<in> E \<and> edge_to e \<in> E)
                               (list_field g ''edges'')))]"

text \<open>
  The induced subgraph as section 8 words it: the edges with both endpoints in \<open>E\<close> and
  among the ids present in the graph.
\<close>

definition claimed_subgraph :: "json \<Rightarrow> key set \<Rightarrow> json" where
  "claimed_subgraph g E =
     JObj [(''nodes'', JArr (filter (\<lambda>n. node_id n \<in> E) (list_field g ''nodes''))),
           (''edges'', JArr (filter (\<lambda>e. edge_from e \<in> E \<inter> node_ids g \<and>
                                          edge_to e \<in> E \<inter> node_ids g)
                               (list_field g ''edges'')))]"




text \<open>The result that \<^verbatim>\<open>main\<close> saves when nothing matches.\<close>

definition no_matches_result :: "string \<Rightarrow> json" where
  "no_matches_result query =
     JObj [(''query'', JStr query),
           (''status'', JStr ''no_matches''),
           (''message'', JStr ''No entities found matching the query''),
           (''suggestions'', JArr [JStr ''Try broader terms'', JStr ''Check spelling'',
                                  JStr ''Use key concepts''])]"

section \<open>Example inputs\<close>

text \<open>The graph of the scenarios of section 8, a chain A-B-C, and a graph with an edge to
  an identifier that no node carries.\<close>

definition node_A :: json where
  "node_A = JObj [(''id'', JStr ''A''), (''text'', JStr ''CISO role''), (''type'', JStr ''ROLE'')]"

definition node_B :: json where
  "node_B = JObj [(''id'', JStr ''B''), (''text'', JStr ''MFA concept''), (''type'', JStr ''CONCEPT'')]"

definition node_C :: json where
  "node_C = JObj [(''id'', JStr ''C''), (''text'', JStr ''unrelated''), (''type'', JStr ''CONCEPT'')]"

definition edge :: "string \<Rightarrow> string \<Rightarrow> json" where
  "edge a b = JObj [(''from'', JStr a), (''to'', JStr b), (''type'', JStr ''RELATES_TO'')]"

definition scenario_graph :: json where
  "scenario_graph =
     JObj [(''nodes'', JArr [node_A, node_B, node_C]), (''edges'', JArr [edge ''A'' ''B''])]"

definition chain_graph :: json where
  "chain_graph =
     JObj [(''nodes'', JArr [node_A, node_B, node_C]),
           (''edges'', JArr [edge ''A'' ''B'', edge ''C'' ''B''])]"

definition dangling_graph :: json where
  "dangling_graph = JObj [(''nodes'', JArr [node_A]), (''edges'', JArr [edge ''A'' ''X''])]"

definition ab_graph :: json where
  "ab_graph =
     JObj [(''nodes'', JArr [JObj [(''id'', JStr ''a''), (''text'', JStr ''b''),
                                   (''type'', JStr ''CONCEPT'')]]),
           (''edges'', JArr [])]"

text \<open>A graph that stores the node A twice.\<close>

definition dup_graph :: json where
  "dup_graph = JObj [(''nodes'', JArr [node_A, node_B, node_A]), (''edges'', JArr [])]"

text \<open>Two chunk records, and file systems holding them.\<close>

definition chunk_1 :: json where
  "chunk_1 = JObj [(''chunk_id'', JStr ''CHUNK-1''), (''entities'', JArr [node_B, node_C]),
                   (''relationships'', JArr [edge ''B'' ''C''])]"



definition broken_world :: world where
  "broken_world =
     \<lparr>files = [''graph.json'' \<mapsto> Document scenario_graph,
               ''chunks/entities_CHUNK-1.json'' \<mapsto> Malformed,
               ''chunks/entities_CHUNK-2.json'' \<mapsto> Document chunk_1],
      listing = (\<lambda>d. if d = ''chunks''
                      then [''chunks/entities_CHUNK-1.json'', ''chunks/entities_CHUNK-2.json'']
                      else []),
      save_error = (\<lambda>p. None)\<rparr>"

definition shapeless_world :: world where
  "shapeless_world =
     \<lparr>files = [''graph.json'' \<mapsto> Document (JObj [(''nodes'', JArr [])])],
      listing = (\<lambda>d. []),
      save_error = (\<lambda>p. None)\<rparr>"

section \<open>Facts about the operations on documents of the right shape\<close>

lemma and_then_Inr [simp]: "and_then (Inr x) f = f x"
  by (simp add: and_then_def)

lemma and_then_Inl [simp]: "and_then (Inl e) f = Inl e"
  by (simp add: and_then_def)

lemma has_str_subscript: "has_str j k \<Longrightarrow> subscript j k = Inr (JStr (str_field j k))"
  by (auto simp: has_str_def str_field_def split: sum.splits json.splits)

lemma has_list_subscript: "has_list j k \<Longrightarrow> subscript j k = Inr (JArr (list_field j k))"
  by (auto simp: has_list_def list_field_def split: sum.splits json.splits)

lemma has_str_get_default: "has_str j k \<Longrightarrow> get_default j k d = Inr (JStr (str_field j k))"
  by (cases j) (auto simp: has_str_def str_field_def split: option.splits json.splits)


lemma keep_total: "(\<And>x. x \<in> set xs \<Longrightarrow> p x = Inr (q x)) \<Longrightarrow> keep p xs = Inr (filter q xs)"
  by (induction xs) auto


lemma in_list_str [simp]: "in_list (JStr s) E = (KStr s \<in> E)"
  by (simp add: in_list_def)


lemma graph_shape_nodes:
  assumes "graph_shape g"
  shows "subscript g ''nodes'' = Inr (JArr (list_field g ''nodes''))"
    and "\<And>n. n \<in> set (list_field g ''nodes'') \<Longrightarrow> is_node n"
  using assms by (simp_all add: graph_shape_def has_list_subscript list_all_iff)

lemma graph_shape_edges:
  assumes "graph_shape g"
  shows "subscript g ''edges'' = Inr (JArr (list_field g ''edges''))"
    and "\<And>e. e \<in> set (list_field g ''edges'') \<Longrightarrow> is_edge e"
  using assms by (simp_all add: graph_shape_def has_list_subscript list_all_iff)

subsection \<open>Subgraph builder\<close>

lemma node_keep:
  assumes "is_node n"
  shows "and_then (subscript n ''id'') (\<lambda>i. Inr (in_list i E)) = Inr (node_id n \<in> E)"
  using assms by (simp add: is_node_def has_str_subscript node_id_def)

lemma edge_keep:
  assumes "is_edge e"
  shows "and_then (subscript e ''from'') (\<lambda>f.
           if in_list f E then and_then (subscript e ''to'') (\<lambda>t. Inr (in_list t E))
           else Inr False) = Inr (edge_from e \<in> E \<and> edge_to e \<in> E)"
  using assms by (simp add: is_edge_def has_str_subscript edge_from_def edge_to_def)

lemma get_subgraph_shape:
  assumes "graph_shape g"
  shows "get_subgraph g E = Inr (induced_subgraph g E)"
proof -
  have kn: "keep (\<lambda>n. and_then (subscript n ''id'') (\<lambda>i. Inr (in_list i E))) (list_field g ''nodes'')
     = Inr (filter (\<lambda>n. node_id n \<in> E) (list_field g ''nodes''))"
    by (rule keep_total) (simp add: node_keep graph_shape_nodes(2) [OF assms])
  have ke: "keep (\<lambda>e. and_then (subscript e ''from'') (\<lambda>f.
           if in_list f E then and_then (subscript e ''to'') (\<lambda>t. Inr (in_list t E))
           else Inr False)) (list_field g ''edges'')
     = Inr (filter (\<lambda>e. edge_from e \<in> E \<and> edge_to e \<in> E) (list_field g ''edges''))"
    by (rule keep_total) (simp add: edge_keep graph_shape_edges(2) [OF assms])
  show ?thesis
    unfolding get_subgraph_def induced_subgraph_def
    by (simp add: graph_shape_nodes(1) [OF assms] graph_shape_edges(1) [OF assms] kn ke)
qed

subsection \<open>Entity matcher\<close>

lemma str_in_sublist: "str_in sub s = sublist sub s"
  by (induction s) (auto simp: sublist_Cons_right)

lemma term_matches_iff: "term_matches ts txt = (\<exists>t\<in>set ts. sublist t txt)"
  by (induction ts) (auto simp: str_in_sublist)

lemma node_text_shape: "is_node n \<Longrightarrow> node_text n = Inr (spaced_text n)"
  by (simp add: node_text_def is_node_def has_str_get_default spaced_text_def)

lemma search_nodes_shape:
  "(\<And>n. n \<in> set nodes \<Longrightarrow> is_node n) \<Longrightarrow>
   search_nodes ql nodes acc = Inr (acc @ filter (\<lambda>n. term_matches ql (spaced_text n)) nodes)"
  by (induction nodes arbitrary: acc) (simp_all add: node_text_shape)

lemma search_entities_shape:
  assumes "graph_shape g"
  shows "search_entities g terms = Inr (spaced_matches g terms)"
  by (simp add: search_entities_def graph_shape_nodes [OF assms] search_nodes_shape
        term_matches_iff spaced_matches_def)

lemma count_list_filter_le: "count_list (filter P xs) x \<le> count_list xs x"
  by (induction xs) auto

subsection \<open>Multi-hop expander\<close>

lemma scan_edge_shape:
  "is_edge e \<Longrightarrow> scan_edge R e new =
     Inr (new \<union> (if edge_from e \<in> R then {edge_to e} else {}) \<union>
               (if edge_to e \<in> R then {edge_from e} else {}))"
  by (auto simp: scan_edge_def is_edge_def has_str_subscript in_set_def set_add_def
        edge_from_def edge_to_def)

lemma scan_edges_shape:
  "(\<And>e. e \<in> set es \<Longrightarrow> is_edge e) \<Longrightarrow> scan_edges R es new = Inr (new \<union> neighbours es R)"
proof (induction es arbitrary: new)
  case Nil
  then show ?case by (simp add: neighbours_def)
next
  case (Cons e es)
  have "neighbours (e # es) R = (if edge_from e \<in> R then {edge_to e} else {}) \<union>
               (if edge_to e \<in> R then {edge_from e} else {}) \<union> neighbours es R"
    by (auto simp: neighbours_def)
  with Cons show ?case by (simp add: scan_edge_shape Un_assoc)
qed

lemma neighbours_adjacent: "neighbours es R = {b. \<exists>a\<in>R. adjacent es a b}"
  by (auto simp: neighbours_def adjacent_def)

lemma within_hops_0: "within_hops es S 0 = S"
proof
  show "within_hops es S 0 \<subseteq> S"
  proof
    fix x assume "x \<in> within_hops es S 0"
    then obtain p where p: "p \<noteq> []" "hd p \<in> S" "last p = x" "length p \<le> Suc 0"
      by (auto simp: within_hops_def)
    then obtain a where "p = [a]" by (cases p) auto
    with p show "x \<in> S" by simp
  qed
  show "S \<subseteq> within_hops es S 0"
  proof
    fix x assume "x \<in> S"
    then have "[x] \<noteq> [] \<and> hd [x] \<in> S \<and> last [x] = x \<and> length [x] \<le> Suc 0 \<and> walk es [x]"
      by simp
    then show "x \<in> within_hops es S 0"
      unfolding within_hops_def by blast
  qed
qed

lemma within_hops_Suc:
  "within_hops es S (Suc h) = within_hops es (S \<union> neighbours es S) h"
proof
  show "within_hops es S (Suc h) \<subseteq> within_hops es (S \<union> neighbours es S) h"
  proof
    fix x assume "x \<in> within_hops es S (Suc h)"
    then obtain p where p: "p \<noteq> []" "hd p \<in> S" "last p = x" "length p \<le> Suc (Suc h)" "walk es p"
      by (auto simp: within_hops_def)
    then obtain a q where pq: "p = a # q" by (cases p) auto
    show "x \<in> within_hops es (S \<union> neighbours es S) h"
    proof (cases q)
      case Nil
      with p pq have "[x] \<noteq> [] \<and> hd [x] \<in> S \<union> neighbours es S \<and> last [x] = x
          \<and> length [x] \<le> Suc h \<and> walk es [x]" by simp
      then show ?thesis unfolding within_hops_def by blast
    next
      case (Cons b r)
      with p pq have "adjacent es a b" "a \<in> S" by simp_all
      then have "b \<in> neighbours es S" by (auto simp: neighbours_adjacent)
      with p pq Cons have "q \<noteq> [] \<and> hd q \<in> S \<union> neighbours es S \<and> last q = x
          \<and> length q \<le> Suc h \<and> walk es q" by simp
      then show ?thesis unfolding within_hops_def by blast
    qed
  qed
  show "within_hops es (S \<union> neighbours es S) h \<subseteq> within_hops es S (Suc h)"
  proof
    fix x assume "x \<in> within_hops es (S \<union> neighbours es S) h"
    then obtain p where p: "p \<noteq> []" "hd p \<in> S \<union> neighbours es S" "last p = x"
        "length p \<le> Suc h" "walk es p"
      by (auto simp: within_hops_def)
    show "x \<in> within_hops es S (Suc h)"
    proof (cases "hd p \<in> S")
      case True
      with p have "p \<noteq> [] \<and> hd p \<in> S \<and> last p = x \<and> length p \<le> Suc (Suc h) \<and> walk es p"
        by simp
      then show ?thesis unfolding within_hops_def by blast
    next
      case False
      with p obtain a where a: "a \<in> S" "adjacent es a (hd p)"
        by (auto simp: neighbours_adjacent)
      from p obtain b r where br: "p = b # r" by (cases p) auto
      with p a have "a # p \<noteq> [] \<and> hd (a # p) \<in> S \<and> last (a # p) = x
          \<and> length (a # p) \<le> Suc (Suc h) \<and> walk es (a # p)"
        by simp
      then show ?thesis unfolding within_hops_def by blast
    qed
  qed
qed

lemma within_hops_mono: "within_hops es S h \<subseteq> within_hops es S (Suc h)"
  unfolding within_hops_def by auto

lemma within_hops_seed: "S \<subseteq> within_hops es S h"
proof (induction h)
  case 0
  then show ?case by (simp add: within_hops_0)
next
  case (Suc h)
  then show ?case using within_hops_mono [of es S h] by blast
qed

lemma expand_rounds_shape:
  assumes "graph_shape g"
  shows "expand_rounds g n R = Inr (within_hops (list_field g ''edges'') R n)"
  by (induction n arbitrary: R)
     (simp_all add: graph_shape_edges [OF assms] scan_edges_shape within_hops_0 within_hops_Suc)

lemma get_related_entities_shape:
  assumes "graph_shape g" "py_set ids = Inr S"
  shows "get_related_entities g ids d = Inr (within_hops (list_field g ''edges'') S (nat d))"
  using assms by (simp add: get_related_entities_def expand_rounds_shape)

subsection \<open>The example inputs\<close>

lemmas shape_defs = graph_shape_def has_list_def list_field_def is_node_def is_edge_def
  has_str_def str_field_def

lemmas example_defs = node_A_def node_B_def node_C_def edge_def

lemmas expand_defs = get_related_entities_def scan_edge_def in_set_def set_add_def

lemma graph_shape_scenario: "graph_shape scenario_graph"
  by (simp add: scenario_graph_def example_defs shape_defs)

lemma graph_shape_chain: "graph_shape chain_graph"
  by (simp add: chain_graph_def example_defs shape_defs)

lemma graph_shape_dangling: "graph_shape dangling_graph"
  by (simp add: dangling_graph_def example_defs shape_defs)

lemma graph_shape_ab: "graph_shape ab_graph"
  by (simp add: ab_graph_def shape_defs)

lemma graph_shape_dup: "graph_shape dup_graph"
  by (simp add: dup_graph_def example_defs shape_defs)

lemma chain_two_hops:
  "get_related_entities chain_graph [JStr ''A''] 2 = Inr {KStr ''A'', KStr ''B'', KStr ''C''}"
  by (simp add: chain_graph_def example_defs expand_defs numeral_2_eq_2 insert_commute)

lemma chain_one_hop:
  "get_related_entities chain_graph [JStr ''A''] 1 = Inr {KStr ''A'', KStr ''B''}"
  by (simp add: chain_graph_def example_defs expand_defs insert_commute)

subsection \<open>Chunk locator\<close>







lemma scan_files_events: "set (fst (scan_files w E fs chunks)) \<subseteq> range OpenFile"
proof (induction fs arbitrary: chunks)
  case Nil
  then show ?case by simp
next
  case (Cons f fs)
  show ?case
  proof (cases "snd (read_json w f)")
    case (Inl e)
    then show ?thesis by (auto simp: read_json_def)
  next
    case (Inr data)
    then have r: "read_json w f = ([OpenFile f], Inr data)" by (auto simp: read_json_def)
    show ?thesis
    proof (cases "chunk_step E f data chunks")
      case (Inl e)
      with r show ?thesis by simp
    next
      case (Inr chunks1)
      with r Cons.IH [of chunks1] show ?thesis
        by (auto split: prod.splits)
    qed
  qed
qed

lemma scan_files_unparsed:
  assumes "p \<in> set fs" and "files w p = Some Malformed"
  shows "\<exists>ev e. scan_files w E fs chunks = (ev, Inl e)"
  using assms(1)
proof (induction fs arbitrary: chunks)
  case Nil
  then show ?case by simp
next
  case (Cons f fs)
  show ?case
  proof (cases "snd (read_json w f)")
    case (Inl e)
    then show ?thesis by (auto simp: read_json_def)
  next
    case (Inr data)
    then have r: "read_json w f = ([OpenFile f], Inr data)" by (auto simp: read_json_def)
    with assms(2) have "f \<noteq> p" by (auto simp: read_json_def)
    with Cons.prems have "p \<in> set fs" by simp
    note IH = Cons.IH [OF this]
    show ?thesis
    proof (cases "chunk_step E f data chunks")
      case (Inl e)
      with r show ?thesis by simp
    next
      case (Inr chunks1)
      from IH [of chunks1] obtain ev e where "scan_files w E fs chunks1 = (ev, Inl e)" by blast
      with r Inr show ?thesis by simp
    qed
  qed
qed

lemma find_chunks_unparsed:
  assumes "p \<in> set (chunk_files w dir)" and "files w p = Some Malformed"
  shows "\<exists>ev e. find_chunks_with_entities w E dir = (ScanDir dir # ev, Inl e) \<and>
                  set ev \<subseteq> range OpenFile"
proof -
  from scan_files_unparsed [OF assms] obtain ev e
    where s: "scan_files w E (chunk_files w dir) [] = (ev, Inl e)" by blast
  with scan_files_events [of w E "chunk_files w dir" "[]"] have "set ev \<subseteq> range OpenFile"
    by simp
  with s show ?thesis by (simp add: find_chunks_with_entities_def)
qed

subsection \<open>Result assembler\<close>

lemma load_graph_cases:
  "load_graph w gf = ([OpenFile gf], Inr g) \<longleftrightarrow> files w gf = Some (Document g)"
  by (auto simp: load_graph_def read_json_def split: option.splits file_state.splits)

lemma main_load_fails:
  assumes "\<And>j. files w gf \<noteq> Some (Document j)"
  shows "\<exists>e. load_graph w gf = ([OpenFile gf], Inl e) \<and>
              main w q gf dir out d = ([OpenFile gf], Inl e)"
  using assms
  by (auto simp: main_def load_graph_def read_json_def split: option.splits file_state.splits)

lemma main_no_matches:
  assumes "files w gf = Some (Document g)"
    and "search_entities g (str_split (str_lower q)) = Inr []"
  shows "main w q gf dir out d =
     ([OpenFile gf, SaveFile out],
      case save_error w out of Some e \<Rightarrow> Inl e | None \<Rightarrow> Inr (no_matches_result q))"
  using assms
  by (simp add: main_def load_graph_def read_json_def no_matches_result_def split: option.splits)


lemma main_locator_aborts:
  assumes "p \<in> set (chunk_files w dir)" and "files w p = Some Malformed"
  shows "ScanDir dir \<in> set (fst (main w q gf dir out d)) \<longrightarrow>
         (\<exists>e. snd (main w q gf dir out d) = Inl e) \<and>
         SaveFile out \<notin> set (fst (main w q gf dir out d))"
proof (cases "snd (read_json w gf)")
  case (Inl e)
  then have "main w q gf dir out d = ([OpenFile gf], Inl e)"
    by (auto simp: main_def load_graph_def read_json_def)
  then show ?thesis by simp
next
  case (Inr g)
  then have r: "load_graph w gf = ([OpenFile gf], Inr g)"
    by (auto simp: load_graph_def read_json_def)
  show ?thesis
  proof (cases "search_entities g (str_split (str_lower q))")
    case (Inl e)
    with r have "main w q gf dir out d = ([OpenFile gf], Inl e)" by (simp add: main_def)
    then show ?thesis by simp
  next
    case ms: (Inr ms)
    show ?thesis
    proof (cases "ms = []")
      case True
      with r ms have "fst (main w q gf dir out d) = [OpenFile gf, SaveFile out]"
        by (simp add: main_def)
      then show ?thesis by simp
    next
      case False
      show ?thesis
      proof (cases "and_then (collect (\<lambda>e. subscript e ''id'') ms)
                      (\<lambda>entity_ids. get_related_entities g entity_ids d)")
        case (Inl e)
        with r ms False have "main w q gf dir out d = ([OpenFile gf], Inl e)"
          by (simp add: main_def)
        then show ?thesis by simp
      next
        case (Inr R)
        from find_chunks_unparsed [OF assms, of R] obtain ev e
          where f: "find_chunks_with_entities w R dir = (ScanDir dir # ev, Inl e)"
            and ev: "set ev \<subseteq> range OpenFile" by blast
        with r ms False Inr have "main w q gf dir out d = (OpenFile gf # ScanDir dir # ev, Inl e)"
          by (simp add: main_def)
        with ev show ?thesis by auto
      qed
    qed
  qed
qed

subsection \<open>Running the code on the example inputs\<close>

lemmas search_defs = search_entities_def node_text_def str_lower_def lower_char_def
  char_of_def bit_Suc_0_iff

lemmas split_defs = str_split_def str_lower_def lower_char_def char_of_def bit_Suc_0_iff
  is_space_def

lemmas locate_defs = find_chunks_with_entities_def chunk_files_def glob_match_def
  basename_def read_json_def

lemma scenario_search_zzz: "search_entities scenario_graph [''zzz''] = Inr []"
  by (simp add: scenario_graph_def example_defs search_defs)


lemma scenario_search_two_terms:
  "search_entities scenario_graph [''CISO'', ''role''] = Inr [node_A]"
  by (simp add: scenario_graph_def example_defs search_defs)

lemma scenario_search_mixed:
  "search_entities scenario_graph [''zzz'', ''CONCEPT''] = Inr [node_B]"
  by (simp add: scenario_graph_def example_defs search_defs)

lemma split_zzz: "str_split (str_lower ''zzz'') = [''zzz'']"
  by (simp add: split_defs)


lemma split_blank: "str_split (str_lower ''  '') = []"
  by (simp add: split_defs)





lemma broken_locator:
  "find_chunks_with_entities broken_world {KStr ''B''} ''chunks'' =
     ([ScanDir ''chunks'', OpenFile ''chunks/entities_CHUNK-1.json''], Inl JSONDecodeError)"
  by (simp add: locate_defs broken_world_def)

lemma broken_main:
  "main broken_world ''mfa'' ''graph.json'' ''chunks'' ''out/result.json'' 1 =
     ([OpenFile ''graph.json'', ScanDir ''chunks'', OpenFile ''chunks/entities_CHUNK-1.json''],
      Inl JSONDecodeError)"
  by (simp add: main_def load_graph_def locate_defs broken_world_def scenario_graph_def
        example_defs search_defs str_split_def is_space_def expand_defs)

section \<open>The claims\<close>

text \<open>
  C1 (as amended). For every graph of the Graph shape and every entity-id set \<open>E\<close>, the
  subgraph builder returns the nodes of the graph whose id is in \<open>E\<close>, in storage order,
  and the edges of the graph with both endpoints in \<open>E\<close>, whether or not an endpoint is
  the id of a node of the graph; no edge with an endpoint outside \<open>E\<close> is included.
\<close>

theorem get_subgraph_induced:
  assumes "graph_shape g"
  shows "get_subgraph g E = Inr (induced_subgraph g E) \<and>
         list_field (induced_subgraph g E) ''nodes'' =
           filter (\<lambda>n. node_id n \<in> E) (list_field g ''nodes'') \<and>
         (\<forall>e. e \<in> set (list_field (induced_subgraph g E) ''edges'') \<longleftrightarrow>
                e \<in> set (list_field g ''edges'') \<and> edge_from e \<in> E \<and> edge_to e \<in> E)"
  using get_subgraph_shape [OF assms, of E]
  by (simp add: induced_subgraph_def list_field_def)

theorem get_subgraph_induced_witness:
  "graph_shape scenario_graph \<and>
   get_subgraph scenario_graph {KStr ''A'', KStr ''B''} =
     Inr (JObj [(''nodes'', JArr [node_A, node_B]), (''edges'', JArr [edge ''A'' ''B''])]) \<and>
   get_subgraph scenario_graph {KStr ''A'', KStr ''C''} =
     Inr (JObj [(''nodes'', JArr [node_A, node_C]), (''edges'', JArr [])])"
proof -
  have "induced_subgraph scenario_graph {KStr ''A'', KStr ''B''} =
      JObj [(''nodes'', JArr [node_A, node_B]), (''edges'', JArr [edge ''A'' ''B''])]"
    and "induced_subgraph scenario_graph {KStr ''A'', KStr ''C''} =
      JObj [(''nodes'', JArr [node_A, node_C]), (''edges'', JArr [])]"
    by (simp_all add: induced_subgraph_def scenario_graph_def example_defs list_field_def
          node_id_def edge_from_def edge_to_def str_field_def)
  with get_subgraph_induced [OF graph_shape_scenario, of "{KStr ''A'', KStr ''B''}"]
    get_subgraph_induced [OF graph_shape_scenario, of "{KStr ''A'', KStr ''C''}"]
    graph_shape_scenario
  show ?thesis by simp
qed

text \<open>
  C1 as stated fails: with the edge A-X, whose endpoint X is the id of no node, and
  \<open>E = {A, X}\<close>, the builder keeps the edge, although X is not among the ids present in
  the graph.
\<close>

theorem get_subgraph_dangling_edge:
  "graph_shape dangling_graph \<and>
   get_subgraph dangling_graph {KStr ''A'', KStr ''X''} = Inr dangling_graph \<and>
   claimed_subgraph dangling_graph {KStr ''A'', KStr ''X''} =
     JObj [(''nodes'', JArr [node_A]), (''edges'', JArr [])]"
  by (simp add: get_subgraph_shape [OF graph_shape_dangling] graph_shape_dangling)
     (simp add: dangling_graph_def example_defs list_field_def node_id_def edge_from_def
        edge_to_def str_field_def claimed_subgraph_def induced_subgraph_def node_ids_def)

text \<open>
  C2. For every graph of the Graph shape, seed set \<open>S\<close> and hop budget \<open>h\<close>, the expander
  returns exactly the identifiers at undirected edge distance at most \<open>h\<close> from \<open>S\<close>; on
  the chain A-B-C with seed A it returns A, B, C for two hops (and A, B for one).
\<close>

theorem get_related_entities_distance:
  assumes "graph_shape g" and "py_set ids = Inr S"
  shows "get_related_entities g ids (int h) = Inr (within_hops (list_field g ''edges'') S h)"
  using assms by (simp add: get_related_entities_def expand_rounds_shape)

theorem get_related_entities_distance_witness:
  "graph_shape chain_graph \<and> py_set [JStr ''A''] = Inr {KStr ''A''} \<and>
   within_hops (list_field chain_graph ''edges'') {KStr ''A''} 2 =
     {KStr ''A'', KStr ''B'', KStr ''C''} \<and>
   get_related_entities chain_graph [JStr ''A''] 2 = Inr {KStr ''A'', KStr ''B'', KStr ''C''} \<and>
   get_related_entities chain_graph [JStr ''A''] 1 = Inr {KStr ''A'', KStr ''B''}"
proof -
  have s: "py_set [JStr ''A''] = Inr {KStr ''A''}" by simp
  from get_related_entities_distance [OF graph_shape_chain s, of 2] chain_two_hops
  have "within_hops (list_field chain_graph ''edges'') {KStr ''A''} 2 =
     {KStr ''A'', KStr ''B'', KStr ''C''}" by simp
  with s chain_two_hops chain_one_hop graph_shape_chain show ?thesis by simp
qed

text \<open>
  C7. For every graph of the Graph shape and seed set, the expander's result for \<open>h\<close> hops
  is contained in its result for \<open>h + 1\<close> hops.
\<close>

theorem get_related_entities_monotone:
  assumes "graph_shape g" and "py_set ids = Inr S"
  shows "\<exists>A B. get_related_entities g ids (int h) = Inr A \<and>
               get_related_entities g ids (int h + 1) = Inr B \<and> A \<subseteq> B"
proof -
  have a: "get_related_entities g ids (int (Suc h)) =
      Inr (within_hops (list_field g ''edges'') S (nat (int (Suc h))))"
    by (rule get_related_entities_shape [OF assms])
  have b: "int h + 1 = int (Suc h)" by simp
  show ?thesis
    unfolding b using a get_related_entities_shape [OF assms, of "int h"] within_hops_mono
    by (simp del: of_nat_Suc)
qed

theorem get_related_entities_monotone_witness:
  "graph_shape chain_graph \<and> py_set [JStr ''A''] = Inr {KStr ''A''} \<and>
   get_related_entities chain_graph [JStr ''A''] 1 = Inr {KStr ''A'', KStr ''B''} \<and>
   get_related_entities chain_graph [JStr ''A''] 2 = Inr {KStr ''A'', KStr ''B'', KStr ''C''} \<and>
   {KStr ''A'', KStr ''B''} \<subseteq> {KStr ''A'', KStr ''B'', KStr ''C''}"
proof -
  have s: "py_set [JStr ''A''] = Inr {KStr ''A''}" by simp
  from get_related_entities_monotone [OF graph_shape_chain s, of 1] chain_one_hop chain_two_hops
  have "{KStr ''A'', KStr ''B''} \<subseteq> {KStr ''A'', KStr ''B'', KStr ''C''}" by simp
  with s chain_one_hop chain_two_hops graph_shape_chain show ?thesis by simp
qed

text \<open>
  C8. With a hop budget of 0 the expander returns the seed set itself, on any graph; on
  every graph of the Graph shape and for every hop budget it returns a superset of the
  seed set.
\<close>

theorem get_related_entities_keeps_seeds:
  assumes "py_set ids = Inr S"
  shows "get_related_entities g ids 0 = Inr S \<and>
         (graph_shape g \<longrightarrow> (\<exists>R. get_related_entities g ids (int h) = Inr R \<and> S \<subseteq> R))"
proof -
  have "get_related_entities g ids 0 = Inr S"
    using assms by (simp add: get_related_entities_def)
  moreover have "\<exists>R. get_related_entities g ids (int h) = Inr R \<and> S \<subseteq> R" if "graph_shape g"
    using get_related_entities_shape [OF that assms, of "int h"] within_hops_seed by simp
  ultimately show ?thesis by blast
qed

theorem get_related_entities_keeps_seeds_witness:
  "py_set [JStr ''A''] = Inr {KStr ''A''} \<and> graph_shape chain_graph \<and>
   get_related_entities chain_graph [JStr ''A''] 0 = Inr {KStr ''A''} \<and>
   get_related_entities chain_graph [JStr ''A''] 1 = Inr {KStr ''A'', KStr ''B''} \<and>
   {KStr ''A''} \<subseteq> {KStr ''A'', KStr ''B''}"
proof -
  have s: "py_set [JStr ''A''] = Inr {KStr ''A''}" by simp
  from get_related_entities_keeps_seeds [OF s, of chain_graph 1] chain_one_hop graph_shape_chain
  have "get_related_entities chain_graph [JStr ''A''] 0 = Inr {KStr ''A''} \<and>
     {KStr ''A''} \<subseteq> {KStr ''A'', KStr ''B''}" by simp
  with s chain_one_hop graph_shape_chain show ?thesis by simp
qed

text \<open>
  C5 (as amended). For every graph of the Graph shape and every list of query terms, the
  entity matcher returns, in node storage order, exactly the nodes for which some
  lower-cased term occurs in the lower-cased text made of the node's \<open>id\<close>, one space and
  its \<open>text\<close>.
\<close>

theorem search_entities_matches:
  assumes "graph_shape g"
  shows "search_entities g terms = Inr (spaced_matches g terms)"
  by (simp add: search_entities_def graph_shape_nodes [OF assms] search_nodes_shape
        term_matches_iff spaced_matches_def)

theorem search_entities_matches_witness:
  "graph_shape scenario_graph \<and>
   search_entities scenario_graph [''zzz'', ''CONCEPT''] = Inr [node_B] \<and>
   spaced_matches scenario_graph [''zzz'', ''CONCEPT''] = [node_B]"
  using search_entities_matches [OF graph_shape_scenario, of "[''zzz'', ''CONCEPT'']"]
    scenario_search_mixed graph_shape_scenario
  by simp

text \<open>
  C5 as stated fails: the node with id \<open>a\<close> and text \<open>b\<close> is searched in \<open>a b\<close>, where the
  term \<open>ab\<close> does not occur, while it occurs in the concatenation \<open>ab\<close> of id and text.
\<close>

theorem search_entities_space_separator:
  "graph_shape ab_graph \<and> search_entities ab_graph [''ab''] = Inr [] \<and>
   claimed_matches ab_graph [''ab''] = list_field ab_graph ''nodes'' \<and>
   list_field ab_graph ''nodes'' \<noteq> []"
  by (simp add: graph_shape_ab)
     (simp add: ab_graph_def search_defs claimed_matches_def claimed_text_def list_field_def
        str_field_def)

text \<open>
  C10 (as amended). For every graph of the Graph shape and every list of query terms,
  the matcher's result is a subsequence of the node list: each stored node is taken at
  most once, however many terms match it, so no node occurs more often in the result
  than in the node list, and the result has no duplicates when the node list has none.
\<close>

theorem search_entities_once:
  assumes "graph_shape g"
  shows "\<exists>ms. search_entities g terms = Inr ms \<and> subseq ms (list_field g ''nodes'') \<and>
           (\<forall>n. count_list ms n \<le> count_list (list_field g ''nodes'') n) \<and>
           (distinct (list_field g ''nodes'') \<longrightarrow> distinct ms)"
  by (simp add: search_entities_shape [OF assms] spaced_matches_def count_list_filter_le)

theorem search_entities_once_witness:
  "graph_shape scenario_graph \<and> distinct (list_field scenario_graph ''nodes'') \<and>
   search_entities scenario_graph [''CISO'', ''role''] = Inr [node_A] \<and>
   count_list [node_A] node_A \<le> count_list (list_field scenario_graph ''nodes'') node_A \<and>
   distinct [node_A]"
proof -
  have d: "distinct (list_field scenario_graph ''nodes'')"
    by (simp add: scenario_graph_def example_defs list_field_def)
  from search_entities_once [OF graph_shape_scenario, of "[''CISO'', ''role'']"]
  obtain ms where a: "search_entities scenario_graph [''CISO'', ''role''] = Inr ms"
    and b: "\<forall>n. count_list ms n \<le> count_list (list_field scenario_graph ''nodes'') n"
    and c: "distinct (list_field scenario_graph ''nodes'') \<longrightarrow> distinct ms"
    by blast
  from a scenario_search_two_terms have ms: "ms = [node_A]" by simp
  with b
  have "count_list [node_A] node_A \<le> count_list (list_field scenario_graph ''nodes'') node_A"
    by blast
  moreover from c d ms have "distinct [node_A]" by simp
  ultimately show ?thesis
    using scenario_search_two_terms graph_shape_scenario d by simp
qed

text \<open>
  C10 as stated fails: on a graph that stores the node A twice, both entries match and
  the result holds A twice.
\<close>

theorem search_entities_stored_twice:
  "graph_shape dup_graph \<and>
   search_entities dup_graph [''ciso'', ''role''] = Inr [node_A, node_A] \<and>
   \<not> distinct [node_A, node_A]"
  by (simp add: graph_shape_dup) (simp add: dup_graph_def example_defs search_defs)

text \<open>
  C6. On every graph of the Graph shape an empty list of query terms matches nothing;
  and whenever the matcher returns no match, \<^verbatim>\<open>main\<close> opens the graph file and saves the
  result and does nothing else to the file system (the chunk directory is not scanned),
  the result being the one with status \<open>no_matches\<close>, the query and the fixed suggestions.
\<close>

theorem no_matches_short_circuit:
  "(graph_shape g \<longrightarrow> search_entities g [] = Inr []) \<and>
   (files w gf = Some (Document g) \<and> search_entities g (str_split (str_lower q)) = Inr [] \<longrightarrow>
      main w q gf dir out d =
        ([OpenFile gf, SaveFile out],
         case save_error w out of Some e \<Rightarrow> Inl e | None \<Rightarrow> Inr (no_matches_result q))) \<and>
   subscript (no_matches_result q) ''status'' = Inr (JStr ''no_matches'') \<and>
   subscript (no_matches_result q) ''query'' = Inr (JStr q) \<and>
   subscript (no_matches_result q) ''suggestions'' =
     Inr (JArr [JStr ''Try broader terms'', JStr ''Check spelling'', JStr ''Use key concepts''])"
proof -
  have "search_entities g [] = Inr []" if "graph_shape g"
    using search_entities_shape [OF that, of "[]"] by (simp add: spaced_matches_def)
  moreover have "main w q gf dir out d =
        ([OpenFile gf, SaveFile out],
         case save_error w out of Some e \<Rightarrow> Inl e | None \<Rightarrow> Inr (no_matches_result q))"
    if "files w gf = Some (Document g)" "search_entities g (str_split (str_lower q)) = Inr []"
    using that by (rule main_no_matches)
  ultimately show ?thesis by (simp add: no_matches_result_def)
qed

theorem no_matches_short_circuit_witness:
  "graph_shape scenario_graph \<and> search_entities scenario_graph [] = Inr [] \<and>
   files broken_world ''graph.json'' = Some (Document scenario_graph) \<and>
   search_entities scenario_graph (str_split (str_lower ''zzz'')) = Inr [] \<and>
   main broken_world ''zzz'' ''graph.json'' ''chunks'' ''out/result.json'' 2 =
     ([OpenFile ''graph.json'', SaveFile ''out/result.json''], Inr (no_matches_result ''zzz''))"
proof -
  have f: "files broken_world ''graph.json'' = Some (Document scenario_graph)"
    and s: "save_error broken_world ''out/result.json'' = None"
    by (simp_all add: broken_world_def)
  have z: "search_entities scenario_graph (str_split (str_lower ''zzz'')) = Inr []"
    by (simp add: split_zzz scenario_search_zzz)
  from no_matches_short_circuit [where g = scenario_graph and w = broken_world
      and gf = "''graph.json''" and q = "''zzz''" and dir = "''chunks''"
      and out = "''out/result.json''" and d = 2] graph_shape_scenario f s z
  show ?thesis by simp
qed

text \<open>
  C4 (as amended). The graph loader returns whatever document the source holds, of any
  shape; it fails, with the error of opening or of parsing, exactly when the source is
  missing, unreadable or not parseable, and then \<^verbatim>\<open>main\<close> stops with that error after
  opening the graph file and nothing else.
\<close>

theorem load_graph_outcome:
  "(files w gf = Some (Document j) \<longrightarrow> load_graph w gf = ([OpenFile gf], Inr j)) \<and>
   ((\<forall>j. files w gf \<noteq> Some (Document j)) \<longrightarrow>
      (\<exists>e. load_graph w gf = ([OpenFile gf], Inl e) \<and>
           main w q gf dir out d = ([OpenFile gf], Inl e)))"
  using main_load_fails [of w gf q dir out d] by (simp add: load_graph_cases)

theorem load_graph_outcome_witness:
  "files shapeless_world ''graph.json'' = Some (Document (JObj [(''nodes'', JArr [])])) \<and>
   load_graph shapeless_world ''graph.json'' =
     ([OpenFile ''graph.json''], Inr (JObj [(''nodes'', JArr [])])) \<and>
   files shapeless_world ''missing.json'' = None \<and>
   main shapeless_world ''ciso'' ''missing.json'' ''chunks'' ''out/result.json'' 2 =
     ([OpenFile ''missing.json''], Inl FileNotFoundError)"
proof -
  have a: "files shapeless_world ''graph.json'' = Some (Document (JObj [(''nodes'', JArr [])]))"
    and b: "files shapeless_world ''missing.json'' = None"
    by (simp_all add: shapeless_world_def)
  have c: "load_graph shapeless_world ''missing.json'' =
      ([OpenFile ''missing.json''], Inl FileNotFoundError)"
    by (simp add: load_graph_def read_json_def b)
  from load_graph_outcome [where w = shapeless_world and gf = "''graph.json''"
      and j = "JObj [(''nodes'', JArr [])]"] a
  have d: "load_graph shapeless_world ''graph.json'' =
     ([OpenFile ''graph.json''], Inr (JObj [(''nodes'', JArr [])]))" by simp
  from load_graph_outcome [where w = shapeless_world and gf = "''missing.json''"
      and q = "''ciso''" and dir = "''chunks''" and out = "''out/result.json''" and d = 2] b c
  have "main shapeless_world ''ciso'' ''missing.json'' ''chunks'' ''out/result.json'' 2 =
     ([OpenFile ''missing.json''], Inl FileNotFoundError)" by simp
  with a b d show ?thesis by simp
qed

text \<open>
  C4 as stated fails: a source holding the document \<open>{"nodes": []}\<close>, which has no
  \<open>edges\<close> field, is loaded without error, and the query on it ends with a saved
  \<open>no_matches\<close> result.
\<close>

theorem load_graph_accepts_other_shapes:
  "\<not> graph_shape (JObj [(''nodes'', JArr [])]) \<and>
   load_graph shapeless_world ''graph.json'' =
     ([OpenFile ''graph.json''], Inr (JObj [(''nodes'', JArr [])])) \<and>
   main shapeless_world ''ciso'' ''graph.json'' ''chunks'' ''out/result.json'' 2 =
     ([OpenFile ''graph.json'', SaveFile ''out/result.json''], Inr (no_matches_result ''ciso''))"
  by (simp add: main_def load_graph_def shapeless_world_def read_json_def search_defs
        str_split_def is_space_def no_matches_result_def shape_defs)

text \<open>
  C3 (as amended). If an artifact among the chunk files of the directory cannot be
  parsed, the chunk locator returns no chunk list but an error, and a run of \<^verbatim>\<open>main\<close>
  that scans the directory ends in an error without saving a result.
\<close>

theorem find_chunks_unparsed_aborts:
  assumes "p \<in> set (chunk_files w dir)" and "files w p = Some Malformed"
  shows "(\<exists>ev e. find_chunks_with_entities w E dir = (ev, Inl e)) \<and>
         (ScanDir dir \<in> set (fst (main w q gf dir out d)) \<longrightarrow>
            (\<exists>e. snd (main w q gf dir out d) = Inl e) \<and>
            SaveFile out \<notin> set (fst (main w q gf dir out d)))"
  using find_chunks_unparsed [OF assms, of E] main_locator_aborts [OF assms, of q gf out d]
  by blast

theorem find_chunks_unparsed_aborts_witness:
  "''chunks/entities_CHUNK-1.json'' \<in> set (chunk_files broken_world ''chunks'') \<and>
   files broken_world ''chunks/entities_CHUNK-1.json'' = Some Malformed \<and>
   ScanDir ''chunks'' \<in>
     set (fst (main broken_world ''mfa'' ''graph.json'' ''chunks'' ''out/result.json'' 1)) \<and>
   snd (main broken_world ''mfa'' ''graph.json'' ''chunks'' ''out/result.json'' 1) =
     Inl JSONDecodeError \<and>
   SaveFile ''out/result.json'' \<notin>
     set (fst (main broken_world ''mfa'' ''graph.json'' ''chunks'' ''out/result.json'' 1))"
proof -
  have a: "''chunks/entities_CHUNK-1.json'' \<in> set (chunk_files broken_world ''chunks'')"
    by (simp add: chunk_files_def broken_world_def glob_match_def basename_def)
  have b: "files broken_world ''chunks/entities_CHUNK-1.json'' = Some Malformed"
    by (simp add: broken_world_def)
  from find_chunks_unparsed_aborts [OF a b, of "{}" "''mfa''" "''graph.json''"
      "''out/result.json''" 1] broken_main a b
  show ?thesis by simp
qed

text \<open>
  C3 as stated fails: with an unparseable first chunk file, the locator does not go on
  to the second one, which holds an entity of the set, but raises, and so does \<^verbatim>\<open>main\<close>.
\<close>

theorem find_chunks_malformed_raises:
  "files broken_world ''chunks/entities_CHUNK-1.json'' = Some Malformed \<and>
   find_chunks_with_entities broken_world {KStr ''B''} ''chunks'' =
     ([ScanDir ''chunks'', OpenFile ''chunks/entities_CHUNK-1.json''], Inl JSONDecodeError) \<and>
   main broken_world ''mfa'' ''graph.json'' ''chunks'' ''out/result.json'' 1 =
     ([OpenFile ''graph.json'', ScanDir ''chunks'', OpenFile ''chunks/entities_CHUNK-1.json''],
      Inl JSONDecodeError)"
  by (simp add: broken_locator broken_main) (simp add: broken_world_def)



end
